theory Spec2Isabelle
  imports Main "HOL-Library.Sublist"
begin

section \<open>ImageRecorder: recording a ROS 2 image topic into a video file\<close>

text \<open>
  A shallow embedding of \<^verbatim>\<open>ImageRecorder.py\<close>. The program is a class
  \<^verbatim>\<open>ImageRecorder\<close> with a subscriber callback and a save routine, an argument parser and a
  \<^verbatim>\<open>main\<close> that spins until Ctrl+C. The collaborators it calls (the image decoder, the video
  encoder, the logger, the wall clock) are not part of the repository: the decoder is a
  parameter of the model, the encoder and the logger are recorded as the calls the program
  makes on them, and the clock is the local time handed to the save routine.
\<close>

subsection \<open>Python strings and integers\<close>

text \<open>\<^verbatim>\<open>str(n)\<close> for a non-negative integer: its decimal digits, most significant first.\<close>

definition digit_char :: "nat \<Rightarrow> char" where
  "digit_char d = ''0123456789'' ! (d mod 10)"

fun str_nat :: "nat \<Rightarrow> string" where
  "str_nat n = (if n < 10 then [digit_char n] else str_nat (n div 10) @ [digit_char (n mod 10)])"

declare str_nat.simps [simp del]

text \<open>\<^verbatim>\<open>str(i)\<close> of a Python integer, as an f-string renders it.\<close>

definition str_int :: "int \<Rightarrow> string" where
  "str_int i = (if i < 0 then CHR ''-'' # str_nat (nat (- i)) else str_nat (nat i))"

text \<open>
  \<^verbatim>\<open>int(s)\<close> on a string, the conversion \<^verbatim>\<open>argparse\<close> applies for \<^verbatim>\<open>type=int\<close>:
  surrounding whitespace is stripped, one sign is allowed, then decimal digits follow,
  where single underscores may separate digits. Anything else raises \<^verbatim>\<open>ValueError\<close>,
  here \<open>None\<close>. Characters are ASCII.
\<close>

definition is_digit :: "char \<Rightarrow> bool" where
  "is_digit c = (c \<in> set ''0123456789'')"

definition digit_val :: "char \<Rightarrow> nat" where
  "digit_val c = of_char c - 48"

definition is_space :: "char \<Rightarrow> bool" where
  "is_space c = (c \<in> set [CHR '' '', CHR 0x09, CHR 0x0A, CHR 0x0B, CHR 0x0C, CHR 0x0D,
                            CHR 0x1C, CHR 0x1D, CHR 0x1E, CHR 0x1F])"

definition strip :: "string \<Rightarrow> string" where
  "strip s = rev (dropWhile is_space (rev (dropWhile is_space s)))"

text \<open>
  The digits after the sign. \<open>prev\<close> tells that the character before was a digit: an
  underscore is accepted only there, and the literal may not end after one.
\<close>

fun int_digits :: "bool \<Rightarrow> nat \<Rightarrow> string \<Rightarrow> nat option" where
  "int_digits prev acc [] = (if prev then Some acc else None)"
| "int_digits prev acc (c # cs) =
     (if is_digit c then int_digits True (acc * 10 + digit_val c) cs
      else if c = CHR ''_'' \<and> prev then int_digits False acc cs
      else None)"

definition py_int :: "string \<Rightarrow> int option" where
  "py_int s =
     (case strip s of
        [] \<Rightarrow> None
      | c # cs \<Rightarrow>
          if c = CHR ''-'' then map_option (\<lambda>n. - int n) (int_digits False 0 cs)
          else if c = CHR ''+'' then map_option int (int_digits False 0 cs)
          else map_option int (int_digits False 0 (c # cs)))"

text \<open>\<^verbatim>\<open>s.endswith(suffix)\<close>.\<close>

definition endswith :: "string \<Rightarrow> string \<Rightarrow> bool" where
  "endswith s suf = (length suf \<le> length s \<and> drop (length s - length suf) s = suf)"

subsection \<open>The wall clock: \<^verbatim>\<open>time.strftime\<close>\<close>

text \<open>
  \<^verbatim>\<open>time.strftime(format)\<close> formats the current local time, a \<^verbatim>\<open>struct_time\<close>. The model
  takes the local time as an argument and interprets the directives the program uses;
  \<^verbatim>\<open>str.zfill\<close> pads with zeros on the left. Platforms differ on \<^verbatim>\<open>%Y\<close> for years
  below 1000 (padded or not); they agree from 1000 on, which \<open>valid_time\<close> asks for.
\<close>

record struct_time =
  tm_year :: nat
  tm_mon :: nat
  tm_mday :: nat
  tm_hour :: nat
  tm_min :: nat
  tm_sec :: nat

definition zfill :: "nat \<Rightarrow> string \<Rightarrow> string" where
  "zfill w s = replicate (w - length s) (CHR ''0'') @ s"

definition directive :: "char \<Rightarrow> struct_time \<Rightarrow> string" where
  "directive d t =
     (if d = CHR ''Y'' then zfill 4 (str_nat (tm_year t))
      else if d = CHR ''m'' then zfill 2 (str_nat (tm_mon t))
      else if d = CHR ''d'' then zfill 2 (str_nat (tm_mday t))
      else if d = CHR ''H'' then zfill 2 (str_nat (tm_hour t))
      else if d = CHR ''M'' then zfill 2 (str_nat (tm_min t))
      else if d = CHR ''S'' then zfill 2 (str_nat (tm_sec t))
      else [CHR ''%'', d])"

fun strftime :: "string \<Rightarrow> struct_time \<Rightarrow> string" where
  "strftime [] t = []"
| "strftime [c] t = [c]"
| "strftime (c # d # rest) t =
     (if c = CHR ''%'' then directive d t @ strftime rest t
      else c # strftime (d # rest) t)"

text \<open>The ranges of the fields of a local time with a four-digit year.\<close>

definition valid_time :: "struct_time \<Rightarrow> bool" where
  "valid_time t =
     (1000 \<le> tm_year t \<and> tm_year t \<le> 9999 \<and> 1 \<le> tm_mon t \<and> tm_mon t \<le> 12 \<and>
      1 \<le> tm_mday t \<and> tm_mday t \<le> 31 \<and> tm_hour t \<le> 23 \<and> tm_min t \<le> 59 \<and>
      tm_sec t \<le> 61)"

text \<open>
  \<^verbatim>\<open>time.strftime\<close> without a time argument formats \<^verbatim>\<open>time.localtime()\<close>: the platform
  takes the seconds since the epoch, adds the offset from UTC that the local zone has at
  that instant, and splits the result into a calendar date and a time of day. The zone's
  offset rule is a parameter; the calendar is the Gregorian one, with day 0 the first of
  January 1970.
\<close>

definition civil_from_days :: "int \<Rightarrow> int \<times> int \<times> int" where
  "civil_from_days days =
     (let z = days + 719468;
          era = z div 146097;
          doe = z mod 146097;
          yoe = (doe - doe div 1460 + doe div 36524 - doe div 146096) div 365;
          doy = doe - (365 * yoe + yoe div 4 - yoe div 100);
          mp = (5 * doy + 2) div 153;
          d = doy - (153 * mp + 2) div 5 + 1;
          m = (if mp < 10 then mp + 3 else mp - 9);
          y = yoe + era * 400 + (if m \<le> 2 then 1 else 0)
      in (y, m, d))"

definition gmtime :: "int \<Rightarrow> struct_time" where
  "gmtime secs =
     (let (y, m, d) = civil_from_days (secs div 86400);
          r = secs mod 86400
      in \<lparr>tm_year = nat y, tm_mon = nat m, tm_mday = nat d, tm_hour = nat (r div 3600),
          tm_min = nat (r mod 3600 div 60), tm_sec = nat (r mod 60)\<rparr>)"

definition localtime :: "(int \<Rightarrow> int) \<Rightarrow> int \<Rightarrow> struct_time" where
  "localtime utcoff secs = gmtime (secs + utcoff secs)"

subsection \<open>Frames, the encoder and the log\<close>

text \<open>
  A decoded image is a \<^verbatim>\<open>numpy\<close> array of shape (height, width, 3); the program reads
  only \<^verbatim>\<open>shape[:2]\<close>.
\<close>

record frame =
  height :: nat
  width :: nat
  pixels :: "nat list"

definition shape2 :: "frame \<Rightarrow> nat \<times> nat" where
  "shape2 f = (height f, width f)"

text \<open>
  A \<^verbatim>\<open>cv2.VideoWriter\<close> object: the arguments it was opened with, the frames handed to
  \<^verbatim>\<open>write\<close> so far, oldest first, and whether \<^verbatim>\<open>release\<close> was called.
\<close>

record video_writer =
  vw_path :: string
  vw_fourcc :: int
  vw_fps :: int
  vw_size :: "nat \<times> nat"
  vw_frames :: "frame list"
  vw_released :: bool

definition VideoWriter_fourcc :: "char \<Rightarrow> char \<Rightarrow> char \<Rightarrow> char \<Rightarrow> int" where
  "VideoWriter_fourcc c1 c2 c3 c4 =
     of_char c1 + 256 * of_char c2 + 65536 * of_char c3 + 16777216 * of_char c4"

definition VideoWriter :: "string \<Rightarrow> int \<Rightarrow> int \<Rightarrow> nat \<times> nat \<Rightarrow> video_writer" where
  "VideoWriter p fourcc rate sz =
     \<lparr>vw_path = p, vw_fourcc = fourcc, vw_fps = rate, vw_size = sz, vw_frames = [],
      vw_released = False\<rparr>"

definition write_frame :: "video_writer \<Rightarrow> frame \<Rightarrow> video_writer" where
  "write_frame out f = out\<lparr>vw_frames := vw_frames out @ [f]\<rparr>"

definition release :: "video_writer \<Rightarrow> video_writer" where
  "release out = out\<lparr>vw_released := True\<rparr>"

text \<open>The loop \<^verbatim>\<open>for frame in self.frames: out.write(frame)\<close>.\<close>

fun write_frames :: "video_writer \<Rightarrow> frame list \<Rightarrow> video_writer" where
  "write_frames out [] = out"
| "write_frames out (f # fs) = write_frames (write_frame out f) fs"

datatype level = INFO | ERROR

type_synonym log_entry = "level \<times> string"

datatype error = CvBridgeError | SystemExit int

subsection \<open>The session\<close>

datatype reliability = BEST_EFFORT | RELIABLE

datatype history = KEEP_LAST | KEEP_ALL

record qos_profile =
  qos_reliability :: reliability
  qos_history :: history
  qos_depth :: nat

record subscription =
  sub_topic :: string
  sub_qos :: qos_profile

text \<open>The fields of an \<^verbatim>\<open>ImageRecorder\<close> object.\<close>

record recorder =
  topic_name :: string
  fps :: int
  output_filename :: "string option"
  subscription :: subscription
  frames :: "frame list"
  recording :: bool

text \<open>
  The object together with what the program does to its surroundings: the lines written
  through the node's logger, the video writers it opened (each one a file on disk), and
  whether the node was destroyed and the client library shut down.
\<close>

record world =
  node :: recorder
  log :: "log_entry list"
  videos :: "video_writer list"
  node_destroyed :: bool
  rclpy_shutdown :: bool

definition logger :: "level \<Rightarrow> string \<Rightarrow> world \<Rightarrow> world" where
  "logger lv s w = w\<lparr>log := log w @ [(lv, s)]\<rparr>"

text \<open>\<^verbatim>\<open>ImageRecorder.__init__\<close>, in a fresh process.\<close>

definition ImageRecorder :: "string \<Rightarrow> int \<Rightarrow> string option \<Rightarrow> world" where
  "ImageRecorder topic rate output =
     (let qos = \<lparr>qos_reliability = BEST_EFFORT, qos_history = KEEP_LAST, qos_depth = 10\<rparr>;
          self = \<lparr>topic_name = topic, fps = rate, output_filename = output,
                  subscription = \<lparr>sub_topic = topic, sub_qos = qos\<rparr>,
                  frames = [], recording = True\<rparr>;
          w = \<lparr>node = self, log = [], videos = [], node_destroyed = False,
               rclpy_shutdown = False\<rparr>;
          w = logger INFO (''Started recording images from topic: '' @ topic_name self) w;
          w = logger INFO (''Frame rate set to: '' @ str_int (fps self) @ '' Hz'') w
      in logger INFO ''Press Ctrl+C to stop and save the video.'' w)"

text \<open>
  \<^verbatim>\<open>image_callback\<close>. The decoder \<^verbatim>\<open>self.bridge.imgmsg_to_cv2\<close> is the parameter
  \<open>imgmsg_to_cv2\<close>; when it raises, the exception leaves the callback before the append.
\<close>

definition image_callback ::
  "('m \<Rightarrow> string \<Rightarrow> error + frame) \<Rightarrow> recorder \<Rightarrow> 'm \<Rightarrow> error + recorder" where
  "image_callback imgmsg_to_cv2 self msg =
     (if \<not> recording self then Inr self
      else case imgmsg_to_cv2 msg ''bgr8'' of
             Inl e \<Rightarrow> Inl e
           | Inr cv_image \<Rightarrow> Inr (self\<lparr>frames := frames self @ [cv_image]\<rparr>))"

text \<open>
  \<^verbatim>\<open>save_video\<close>. \<open>now\<close> is the local time at the call. Python takes the branch
  \<^verbatim>\<open>if self.output_filename:\<close> for a string that is not empty; \<^verbatim>\<open>None\<close> and the empty
  string both go to the timestamp.
\<close>

definition save_video :: "struct_time \<Rightarrow> world \<Rightarrow> world" where
  "save_video now w =
     (let self = node w in
      case frames self of
        [] \<Rightarrow> logger ERROR ''No frames recorded!'' w
      | frame0 # _ \<Rightarrow>
          let (h, wd) = shape2 frame0;
              output_path =
                (case output_filename self of
                   Some name \<Rightarrow>
                     if name \<noteq> [] then
                       (if \<not> endswith name ''.mp4'' then name @ ''.mp4'' else name)
                     else ''camera_record_'' @ strftime ''%Y%m%d-%H%M%S'' now @ ''.mp4''
                 | None \<Rightarrow> ''camera_record_'' @ strftime ''%Y%m%d-%H%M%S'' now @ ''.mp4'');
              fourcc = VideoWriter_fourcc CHR ''m'' CHR ''p'' CHR ''4'' CHR ''v'';
              out = VideoWriter output_path fourcc (fps self) (wd, h);
              out = write_frames out (frames self);
              out = release out;
              w = w\<lparr>videos := videos w @ [out]\<rparr>;
              w = logger INFO (''Video saved to '' @ output_path) w
          in w\<lparr>node := self\<lparr>frames := []\<rparr>\<rparr>)"

subsection \<open>Command line\<close>

text \<open>
  \<^verbatim>\<open>parse_args\<close>. The input is the text given after each option, \<open>None\<close> for an option
  that is absent; \<^verbatim>\<open>argparse\<close> fills in the defaults, converts the frame rate with
  \<^verbatim>\<open>int\<close>, and exits with status 2 when the conversion fails.
\<close>

record cli_input =
  given_topic :: "string option"
  given_fps :: "string option"
  given_output :: "string option"

record cli_args =
  arg_topic :: string
  arg_fps :: int
  arg_output :: "string option"

definition parse_args :: "cli_input \<Rightarrow> error + cli_args" where
  "parse_args a =
     (let t = (case given_topic a of None \<Rightarrow> ''/sensing/camera/traffic_light/image_raw''
               | Some s \<Rightarrow> s)
      in case given_fps a of
           None \<Rightarrow> Inr \<lparr>arg_topic = t, arg_fps = 8, arg_output = given_output a\<rparr>
         | Some s \<Rightarrow>
             (case py_int s of
                None \<Rightarrow> Inl (SystemExit 2)
              | Some n \<Rightarrow> Inr \<lparr>arg_topic = t, arg_fps = n, arg_output = given_output a\<rparr>))"

subsection \<open>The process: \<^verbatim>\<open>main\<close>\<close>

text \<open>
  \<^verbatim>\<open>rclpy.spin\<close> hands each delivered message to the callback and raises
  \<^verbatim>\<open>KeyboardInterrupt\<close> on Ctrl+C. The process is a machine over the statements of
  \<^verbatim>\<open>main\<close>: a program point, the world, and the events still to come. An exception that
  is not a \<^verbatim>\<open>KeyboardInterrupt\<close> skips the handler, runs the \<^verbatim>\<open>finally\<close> block and ends the
  process with status 1.
\<close>

datatype 'm event = Deliver 'm | KeyboardInterrupt

datatype pc =
    Spin
  | Except_log
  | Except_flag
  | Except_save
  | Finally_destroy "error option"
  | Finally_shutdown "error option"
  | Exited int

type_synonym 'm config = "pc \<times> world \<times> 'm event list"

fun step ::
  "('m \<Rightarrow> string \<Rightarrow> error + frame) \<Rightarrow> struct_time \<Rightarrow> 'm config \<Rightarrow> 'm config option" where
  "step b now (Spin, w, []) = None"
| "step b now (Spin, w, Deliver msg # es) =
     (case image_callback b (node w) msg of
        Inl e \<Rightarrow> Some (Finally_destroy (Some e), w, es)
      | Inr self \<Rightarrow> Some (Spin, w\<lparr>node := self\<rparr>, es))"
| "step b now (Spin, w, KeyboardInterrupt # es) = Some (Except_log, w, es)"
| "step b now (Except_log, w, es) =
     Some (Except_flag, logger INFO ''Stopping recording and saving video...'' w, es)"
| "step b now (Except_flag, w, es) =
     Some (Except_save, w\<lparr>node := (node w)\<lparr>recording := False\<rparr>\<rparr>, es)"
| "step b now (Except_save, w, es) = Some (Finally_destroy None, save_video now w, es)"
| "step b now (Finally_destroy x, w, es) =
     Some (Finally_shutdown x, w\<lparr>node_destroyed := True\<rparr>, es)"
| "step b now (Finally_shutdown x, w, es) =
     Some (Exited (case x of None \<Rightarrow> 0 | Some _ \<Rightarrow> 1), w\<lparr>rclpy_shutdown := True\<rparr>, es)"
| "step b now (Exited k, w, es) = None"

fun rank :: "pc \<Rightarrow> nat" where
  "rank Spin = 6"
| "rank Except_log = 5"
| "rank Except_flag = 4"
| "rank Except_save = 3"
| "rank (Finally_destroy x) = 2"
| "rank (Finally_shutdown x) = 1"
| "rank (Exited k) = 0"

lemma step_decreases:
  "step b now (p, w, es) = Some (p', w', es') \<Longrightarrow> length es' + rank p' < length es + rank p"
  by (induction b now "(p, w, es)" rule: step.induct) (auto split: sum.splits)

text \<open>
  Running the process until no statement is left: it ends in \<open>Exited k\<close>, or it stays in
  \<open>Spin\<close> for ever when no further event arrives.
\<close>

function exec ::
  "('m \<Rightarrow> string \<Rightarrow> error + frame) \<Rightarrow> struct_time \<Rightarrow> 'm config \<Rightarrow> 'm config" where
  "exec b now c = (case step b now c of None \<Rightarrow> c | Some c' \<Rightarrow> exec b now c')"
  by pat_completeness auto
termination
  by (relation "measure (\<lambda>(b, now, (p, w, es)). length es + rank p)")
     (auto dest: step_decreases)

declare exec.simps [simp del]

definition main ::
  "('m \<Rightarrow> string \<Rightarrow> error + frame) \<Rightarrow> struct_time \<Rightarrow> cli_input \<Rightarrow> 'm event list \<Rightarrow>
   error + 'm config" where
  "main b now argv evs =
     (case parse_args argv of
        Inl e \<Rightarrow> Inl e
      | Inr cli_args \<Rightarrow>
          Inr (exec b now (Spin, ImageRecorder (arg_topic cli_args) (arg_fps cli_args)
                                  (arg_output cli_args), evs)))"

text \<open>The configurations the process passes through.\<close>

inductive reachable ::
  "('m \<Rightarrow> string \<Rightarrow> error + frame) \<Rightarrow> struct_time \<Rightarrow> 'm config \<Rightarrow> bool"
  for b :: "'m \<Rightarrow> string \<Rightarrow> error + frame" and now :: struct_time where
  reach_start: "reachable b now (Spin, ImageRecorder topic rate output, evs)"
| reach_step: "reachable b now c \<Longrightarrow> step b now c = Some c' \<Longrightarrow> reachable b now c'"

subsection \<open>Sample inputs\<close>

text \<open>
  A local time, a decoder over messages that are numbers (a number below 100 decodes to a
  2 by 3 frame carrying it, anything else is rejected), and a session two frames into a
  recording.
\<close>

definition sample_time :: struct_time where
  "sample_time =
     \<lparr>tm_year = 2025, tm_mon = 5, tm_mday = 21, tm_hour = 13, tm_min = 4, tm_sec = 9\<rparr>"

definition sample_frame :: "nat \<Rightarrow> frame" where
  "sample_frame n = \<lparr>height = 2, width = 3, pixels = [n]\<rparr>"

definition sample_bridge :: "nat \<Rightarrow> string \<Rightarrow> error + frame" where
  "sample_bridge msg enc =
     (if enc = ''bgr8'' \<and> msg < 100 then Inr (sample_frame msg) else Inl CvBridgeError)"

definition sample_world :: "string option \<Rightarrow> world" where
  "sample_world output =
     (ImageRecorder ''/cam'' 8 output)
       \<lparr>node := (node (ImageRecorder ''/cam'' 8 output))
                  \<lparr>frames := [sample_frame 1, sample_frame 2]\<rparr>\<rparr>"

definition sample_argv :: cli_input where
  "sample_argv = \<lparr>given_topic = None, given_fps = None, given_output = None\<rparr>"

text \<open>
  The offset of US Eastern time in the autumn of 2025: four hours behind UTC until
  2025-11-02 06:00:00 UTC (epoch second 1762063200), five hours behind from then on.
\<close>

definition sample_utcoff :: "int \<Rightarrow> int" where
  "sample_utcoff secs = (if secs < 1762063200 then - 14400 else - 18000)"

section \<open>Properties\<close>

subsection \<open>The save routine\<close>

lemma write_frames_appends: "write_frames out fs = out\<lparr>vw_frames := vw_frames out @ fs\<rparr>"
  by (induction fs arbitrary: out) (simp_all add: write_frame_def)

lemma save_video_Nil:
  "frames (node w) = [] \<Longrightarrow>
   save_video now w = w\<lparr>log := log w @ [(ERROR, ''No frames recorded!'')]\<rparr>"
  by (simp add: save_video_def logger_def)

lemma save_video_Cons:
  assumes "frames (node w) = f0 # fs"
  shows "save_video now w =
    (let p = (case output_filename (node w) of
                Some name \<Rightarrow>
                  if name \<noteq> [] then
                    (if \<not> endswith name ''.mp4'' then name @ ''.mp4'' else name)
                  else ''camera_record_'' @ strftime ''%Y%m%d-%H%M%S'' now @ ''.mp4''
              | None \<Rightarrow> ''camera_record_'' @ strftime ''%Y%m%d-%H%M%S'' now @ ''.mp4'')
     in w\<lparr>node := (node w)\<lparr>frames := []\<rparr>,
          log := log w @ [(INFO, ''Video saved to '' @ p)],
          videos := videos w @
            [\<lparr>vw_path = p, vw_fourcc = 1983148141, vw_fps = fps (node w),
              vw_size = (width f0, height f0), vw_frames = f0 # fs,
              vw_released = True\<rparr>]\<rparr>)"
  using assms
  by (simp add: save_video_def Let_def shape2_def logger_def VideoWriter_def release_def
      write_frames_appends VideoWriter_fourcc_def del: strftime.simps)



lemma ImageRecorder_fields:
  "node (ImageRecorder topic rate output) =
     \<lparr>topic_name = topic, fps = rate, output_filename = output,
      subscription = \<lparr>sub_topic = topic,
        sub_qos = \<lparr>qos_reliability = BEST_EFFORT, qos_history = KEEP_LAST, qos_depth = 10\<rparr>\<rparr>,
      frames = [], recording = True\<rparr>"
  "videos (ImageRecorder topic rate output) = []"
  "log (ImageRecorder topic rate output) =
     [(INFO, ''Started recording images from topic: '' @ topic),
      (INFO, ''Frame rate set to: '' @ str_int rate @ '' Hz''),
      (INFO, ''Press Ctrl+C to stop and save the video.'')]"
  "node_destroyed (ImageRecorder topic rate output) = False"
  "rclpy_shutdown (ImageRecorder topic rate output) = False"
  by (simp_all add: ImageRecorder_def Let_def logger_def)

text \<open>
  C2. With an empty frame sequence the save routine logs the error
  \<^verbatim>\<open>No frames recorded!\<close> and returns: no video writer is opened, so no file is created,
  and the session object is as it was. Only the log has changed.
\<close>

theorem save_video_no_frames:
  assumes "frames (node w) = []"
  shows "save_video now w = w\<lparr>log := log w @ [(ERROR, ''No frames recorded!'')]\<rparr> \<and>
         log (save_video now w) = log w @ [(ERROR, ''No frames recorded!'')] \<and>
         videos (save_video now w) = videos w \<and>
         node (save_video now w) = node w"
  using assms by (simp add: save_video_Nil)

theorem save_video_no_frames_witness:
  "frames (node (ImageRecorder ''/cam'' 8 (Some ''clip''))) = [] \<and>
   videos (save_video sample_time (ImageRecorder ''/cam'' 8 (Some ''clip''))) = [] \<and>
   node (save_video sample_time (ImageRecorder ''/cam'' 8 (Some ''clip''))) =
     node (ImageRecorder ''/cam'' 8 (Some ''clip'')) \<and>
   last (log (save_video sample_time (ImageRecorder ''/cam'' 8 (Some ''clip'')))) =
     (ERROR, ''No frames recorded!'')"
proof -
  have h: "frames (node (ImageRecorder ''/cam'' 8 (Some ''clip''))) = []"
    by (simp add: ImageRecorder_fields)
  have v: "videos (ImageRecorder ''/cam'' 8 (Some ''clip'')) = []"
    by (simp add: ImageRecorder_fields)
  show ?thesis
    using h v save_video_no_frames [OF h, of sample_time] by simp
qed

text \<open>
  C4. With a frame sequence that is not empty, the save routine leaves the session with an
  empty frame sequence and every other field of the object as before.
\<close>

theorem save_video_clears_frames:
  assumes "frames (node w) \<noteq> []"
  shows "frames (node (save_video now w)) = [] \<and>
         node (save_video now w) = (node w)\<lparr>frames := []\<rparr>"
proof -
  from assms obtain f0 fs where "frames (node w) = f0 # fs"
    by (cases "frames (node w)") auto
  then show ?thesis
    by (simp add: save_video_Cons Let_def)
qed

theorem save_video_clears_frames_witness:
  "frames (node (sample_world None)) \<noteq> [] \<and>
   frames (node (save_video sample_time (sample_world None))) = []"
proof -
  have h: "frames (node (sample_world None)) \<noteq> []"
    by (simp add: sample_world_def)
  show ?thesis
    using h save_video_clears_frames [OF h, of sample_time] by simp
qed

text \<open>
  C9. A second call of the save routine after one that had frames to write finds the frame
  sequence empty: it logs the error, opens no further writer and leaves the session as
  the first call left it.
\<close>

theorem save_video_twice:
  assumes "frames (node w) \<noteq> []"
  shows "save_video t2 (save_video t1 w) =
           (save_video t1 w)
             \<lparr>log := log (save_video t1 w) @ [(ERROR, ''No frames recorded!'')]\<rparr> \<and>
         videos (save_video t2 (save_video t1 w)) = videos (save_video t1 w) \<and>
         node (save_video t2 (save_video t1 w)) = node (save_video t1 w)"
proof -
  from assms obtain f0 fs where "frames (node w) = f0 # fs"
    by (cases "frames (node w)") auto
  then have "frames (node (save_video t1 w)) = []"
    by (simp add: save_video_Cons Let_def)
  then show ?thesis
    by (simp add: save_video_Nil)
qed

theorem save_video_twice_witness:
  "frames (node (sample_world None)) \<noteq> [] \<and>
   videos (save_video sample_time (save_video sample_time (sample_world None))) =
     videos (save_video sample_time (sample_world None)) \<and>
   node (save_video sample_time (save_video sample_time (sample_world None))) =
     node (save_video sample_time (sample_world None))"
proof -
  have h: "frames (node (sample_world None)) \<noteq> []"
    by (simp add: sample_world_def)
  show ?thesis
    using h save_video_twice [OF h, of sample_time sample_time] by simp
qed

subsection \<open>The callback\<close>

text \<open>
  C5. When the recording flag is false the callback returns at once: whatever the message
  and whatever the decoder would do with it, no exception is raised and the session object
  is unchanged.
\<close>

theorem image_callback_not_recording:
  assumes "\<not> recording self"
  shows "image_callback imgmsg_to_cv2 self msg = Inr self"
  using assms by (simp add: image_callback_def)

theorem image_callback_not_recording_witness:
  "\<not> recording ((node (sample_world None))\<lparr>recording := False\<rparr>) \<and>
   image_callback sample_bridge ((node (sample_world None))\<lparr>recording := False\<rparr>) 500 =
     Inr ((node (sample_world None))\<lparr>recording := False\<rparr>) \<and>
   sample_bridge 500 ''bgr8'' = Inl CvBridgeError"
proof -
  have h: "\<not> recording ((node (sample_world None))\<lparr>recording := False\<rparr>)"
    by simp
  show ?thesis
    using h image_callback_not_recording [OF h, of sample_bridge 500]
    by (simp add: sample_bridge_def)
qed

subsection \<open>The process\<close>

lemma exec_Some: "step b now c = Some c' \<Longrightarrow> exec b now c = exec b now c'"
  by (subst exec.simps) simp

lemma exec_None: "step b now c = None \<Longrightarrow> exec b now c = c"
  by (subst exec.simps) simp

lemma exec_interrupt:
  "exec b now (Spin, w, KeyboardInterrupt # es) =
     (Exited 0,
      (save_video now
         (w\<lparr>log := log w @ [(INFO, ''Stopping recording and saving video...'')],
            node := (node w)\<lparr>recording := False\<rparr>\<rparr>))
        \<lparr>node_destroyed := True, rclpy_shutdown := True\<rparr>,
      es)"
proof -
  let ?w1 = "logger INFO ''Stopping recording and saving video...'' w"
  let ?w2 = "?w1\<lparr>node := (node ?w1)\<lparr>recording := False\<rparr>\<rparr>"
  let ?w3 = "save_video now ?w2"
  let ?w4 = "?w3\<lparr>node_destroyed := True\<rparr>"
  let ?w5 = "?w4\<lparr>rclpy_shutdown := True\<rparr>"
  have "exec b now (Spin, w, KeyboardInterrupt # es) = exec b now (Except_log, w, es)"
    by (rule exec_Some) simp
  also have "\<dots> = exec b now (Except_flag, ?w1, es)"
    by (rule exec_Some) simp
  also have "\<dots> = exec b now (Except_save, ?w2, es)"
    by (rule exec_Some) simp
  also have "\<dots> = exec b now (Finally_destroy None, ?w3, es)"
    by (rule exec_Some) simp
  also have "\<dots> = exec b now (Finally_shutdown None, ?w4, es)"
    by (rule exec_Some) simp
  also have "\<dots> = exec b now (Exited 0, ?w5, es)"
    by (rule exec_Some) simp
  also have "\<dots> = (Exited 0, ?w5, es)"
    by (rule exec_None) simp
  finally show ?thesis
    by (simp add: logger_def)
qed

lemma exec_deliver:
  assumes "recording (node w)" and "map (\<lambda>m. b m ''bgr8'') msgs = map Inr fs"
  shows "exec b now (Spin, w, map Deliver msgs @ es) =
         exec b now (Spin, w\<lparr>node := (node w)\<lparr>frames := frames (node w) @ fs\<rparr>\<rparr>, es)"
  using assms
proof (induction msgs arbitrary: w fs)
  case Nil
  then show ?case by simp
next
  case (Cons m msgs)
  from Cons.prems(2) obtain f fs' where fs: "fs = f # fs'" and f: "b m ''bgr8'' = Inr f"
    and rest: "map (\<lambda>m. b m ''bgr8'') msgs = map Inr fs'"
    by (cases fs) auto
  let ?w = "w\<lparr>node := (node w)\<lparr>frames := frames (node w) @ [f]\<rparr>\<rparr>"
  have "exec b now (Spin, w, map Deliver (m # msgs) @ es) =
        exec b now (Spin, ?w, map Deliver msgs @ es)"
    using Cons.prems(1) f by (intro exec_Some) (simp add: image_callback_def)
  also have "\<dots> = exec b now (Spin, ?w\<lparr>node := (node ?w)\<lparr>frames := frames (node ?w) @ fs'\<rparr>\<rparr>, es)"
    using Cons.prems(1) by (intro Cons.IH rest) simp
  finally show ?case
    by (simp add: fs)
qed


lemma save_video_writes_frames:
  "frames (node w) \<noteq> [] \<Longrightarrow>
   map vw_frames (videos (save_video now w)) = map vw_frames (videos w) @ [frames (node w)]"
  by (cases "frames (node w)") (simp_all add: save_video_Cons Let_def)

text \<open>
  C1. When the command line parses and every one of the messages delivered before the
  interrupt decodes, the process ends with status 0 and the writers it opened hold exactly
  the decoded frames, in delivery order, in one video (none when no message came), so the
  video has as many frames as messages were delivered. Each callback appends the one
  decoded frame at the end of the frame sequence, and the save routine hands the frame
  sequence to the writer front to back.
\<close>

theorem frames_saved_in_delivery_order:
  assumes "parse_args argv = Inr a"
    and "map (\<lambda>m. b m ''bgr8'') msgs = map Inr fs"
  shows "(\<exists>w. main b now argv (map Deliver msgs @ KeyboardInterrupt # es) = Inr (Exited 0, w, es) \<and>
              map vw_frames (videos w) = (if fs = [] then [] else [fs]) \<and>
              length fs = length msgs) \<and>
         (\<forall>self m f. recording self \<and> b m ''bgr8'' = Inr f \<longrightarrow>
              image_callback b self m = Inr (self\<lparr>frames := frames self @ [f]\<rparr>)) \<and>
         (\<forall>w. frames (node w) \<noteq> [] \<longrightarrow>
              map vw_frames (videos (save_video now w)) =
                map vw_frames (videos w) @ [frames (node w)])"
proof (intro conjI allI impI)
  let ?wa = "ImageRecorder (arg_topic a) (arg_fps a) (arg_output a)"
  let ?wb = "?wa\<lparr>node := (node ?wa)\<lparr>frames := frames (node ?wa) @ fs\<rparr>\<rparr>"
  let ?wc = "?wb\<lparr>log := log ?wb @ [(INFO, ''Stopping recording and saving video...'')],
                 node := (node ?wb)\<lparr>recording := False\<rparr>\<rparr>"
  let ?wd = "(save_video now ?wc)\<lparr>node_destroyed := True, rclpy_shutdown := True\<rparr>"
  have "exec b now (Spin, ?wa, map Deliver msgs @ KeyboardInterrupt # es) =
        exec b now (Spin, ?wb, KeyboardInterrupt # es)"
    using assms(2) by (intro exec_deliver) (simp_all add: ImageRecorder_fields)
  also have "\<dots> = (Exited 0, ?wd, es)"
    by (rule exec_interrupt)
  finally have run: "main b now argv (map Deliver msgs @ KeyboardInterrupt # es) =
      Inr (Exited 0, ?wd, es)"
    using assms(1) by (simp add: main_def)
  have fr: "frames (node ?wc) = fs" and vs: "videos ?wc = []"
    by (simp_all add: ImageRecorder_fields)
  have "map vw_frames (videos ?wd) = (if fs = [] then [] else [fs])"
  proof (cases "fs = []")
    case True
    with fr vs show ?thesis by (simp add: save_video_Nil)
  next
    case False
    with fr vs save_video_writes_frames [of ?wc now] show ?thesis by simp
  qed
  moreover have "length fs = length msgs"
    using assms(2) by (metis length_map)
  ultimately show "\<exists>w. main b now argv (map Deliver msgs @ KeyboardInterrupt # es) =
        Inr (Exited 0, w, es) \<and>
      map vw_frames (videos w) = (if fs = [] then [] else [fs]) \<and> length fs = length msgs"
    using run by blast
next
  fix self :: recorder and m f
  assume "recording self \<and> b m ''bgr8'' = Inr f"
  then show "image_callback b self m = Inr (self\<lparr>frames := frames self @ [f]\<rparr>)"
    by (simp add: image_callback_def)
next
  fix w :: world
  assume "frames (node w) \<noteq> []"
  then show "map vw_frames (videos (save_video now w)) =
      map vw_frames (videos w) @ [frames (node w)]"
    by (rule save_video_writes_frames)
qed

theorem frames_saved_in_delivery_order_witness:
  "parse_args sample_argv =
     Inr \<lparr>arg_topic = ''/sensing/camera/traffic_light/image_raw'', arg_fps = 8,
          arg_output = None\<rparr> \<and>
   map (\<lambda>m. sample_bridge m ''bgr8'') [1, 2, 3] =
     map Inr [sample_frame 1, sample_frame 2, sample_frame 3] \<and>
   (\<exists>w. main sample_bridge sample_time sample_argv
           (map Deliver [1, 2, 3] @ KeyboardInterrupt # [Deliver 4]) =
         Inr (Exited 0, w, [Deliver 4]) \<and>
        map vw_frames (videos w) = [[sample_frame 1, sample_frame 2, sample_frame 3]])"
proof -
  have h1: "parse_args sample_argv =
     Inr \<lparr>arg_topic = ''/sensing/camera/traffic_light/image_raw'', arg_fps = 8,
          arg_output = None\<rparr>"
    by (simp add: parse_args_def sample_argv_def)
  have h2: "map (\<lambda>m. sample_bridge m ''bgr8'') [1, 2, 3] =
     map Inr [sample_frame 1, sample_frame 2, sample_frame 3]"
    by (simp add: sample_bridge_def)
  show ?thesis
    using h1 h2
      frames_saved_in_delivery_order [where b = sample_bridge and msgs = "[1, 2, 3]"
        and now = sample_time and es = "[Deliver 4]", OF h1 h2]
    by simp
qed






subsection \<open>Decimal numerals\<close>

lemma digit_char_cases:
  "d < 10 \<Longrightarrow> d = 0 \<or> d = 1 \<or> d = 2 \<or> d = 3 \<or> d = 4 \<or> d = 5 \<or> d = 6 \<or> d = 7 \<or> d = 8 \<or> d = (9::nat)"
  by arith

lemma digit_char_props:
  assumes "d < 10"
  shows "digit_val (digit_char d) = d" and "is_digit (digit_char d)"
  using digit_char_cases [OF assms]
  by (auto simp: digit_char_def digit_val_def is_digit_def)


lemma str_nat_digits: "c \<in> set (str_nat n) \<Longrightarrow> is_digit c"
proof (induction n arbitrary: c rule: str_nat.induct)
  case (1 n)
  then show ?case
    by (subst (asm) (2) str_nat.simps) (auto simp: digit_char_props split: if_splits)
qed

lemma str_nat_not_Nil: "str_nat n \<noteq> []"
  by (subst str_nat.simps) simp

lemma foldl_str_nat: "foldl (\<lambda>a c. a * 10 + digit_val c) 0 (str_nat n) = n"
proof (induction n rule: str_nat.induct)
  case (1 n)
  show ?case
  proof (cases "n < 10")
    case True
    then show ?thesis
      by (subst str_nat.simps) (simp add: digit_char_props)
  next
    case False
    with 1 show ?thesis
      by (subst str_nat.simps) (simp add: digit_char_props)
  qed
qed

lemma int_digits_all_digits:
  assumes "\<And>c. c \<in> set ds \<Longrightarrow> is_digit c" and "ds \<noteq> [] \<or> prev"
  shows "int_digits prev acc ds = Some (foldl (\<lambda>a c. a * 10 + digit_val c) acc ds)"
  using assms by (induction ds arbitrary: prev acc) auto

lemma foldl_zeros: "foldl (\<lambda>a c. a * 10 + digit_val c) 0 (replicate k (CHR ''0'')) = 0"
  by (induction k) (simp_all add: digit_val_def)


lemma int_digits_zfill: "int_digits False 0 (zfill k (str_nat n)) = Some n"
proof -
  have "\<And>c. c \<in> set (zfill k (str_nat n)) \<Longrightarrow> is_digit c"
    by (auto simp: zfill_def is_digit_def dest: str_nat_digits)
  moreover have "zfill k (str_nat n) \<noteq> []"
    by (simp add: zfill_def str_nat_not_Nil)
  ultimately show ?thesis
    by (simp add: int_digits_all_digits) (simp add: zfill_def foldl_zeros foldl_str_nat)
qed

lemma zfill_str_nat_inj: "zfill k (str_nat m) = zfill k (str_nat n) \<Longrightarrow> m = n"
  by (metis int_digits_zfill option.inject)

subsection \<open>Timestamps\<close>

lemma length_str_nat: "0 < k \<Longrightarrow> n < 10 ^ k \<Longrightarrow> length (str_nat n) \<le> k"
proof (induction k arbitrary: n)
  case 0
  then show ?case by simp
next
  case (Suc k)
  show ?case
  proof (cases "n < 10")
    case True
    then show ?thesis by (subst str_nat.simps) simp
  next
    case False
    then have "0 < k" using Suc.prems by (cases k) auto
    moreover have "n div 10 < 10 ^ k" using Suc.prems by (simp add: less_mult_imp_div_less mult.commute)
    ultimately have "length (str_nat (n div 10)) \<le> k" by (rule Suc.IH)
    with False show ?thesis by (subst str_nat.simps) simp
  qed
qed

lemma length_zfill: "length s \<le> k \<Longrightarrow> length (zfill k s) = k"
  by (simp add: zfill_def)

lemma length_zfill_2: "n < 100 \<Longrightarrow> length (zfill 2 (str_nat n)) = 2"
  using length_str_nat [of 2 n] by (simp add: length_zfill)

lemma length_zfill_4: "n < 10000 \<Longrightarrow> length (zfill 4 (str_nat n)) = 4"
  using length_str_nat [of 4 n] by (simp add: length_zfill)

lemma strftime_format:
  "strftime ''%Y%m%d-%H%M%S'' t =
     zfill 4 (str_nat (tm_year t)) @ zfill 2 (str_nat (tm_mon t)) @
     zfill 2 (str_nat (tm_mday t)) @ ''-'' @ zfill 2 (str_nat (tm_hour t)) @
     zfill 2 (str_nat (tm_min t)) @ zfill 2 (str_nat (tm_sec t))"
  by (simp add: directive_def)

lemma strftime_inj:
  assumes "valid_time s" and "valid_time t"
    and "strftime ''%Y%m%d-%H%M%S'' s = strftime ''%Y%m%d-%H%M%S'' t"
  shows "s = t"
proof -
  have ls: "length (zfill 4 (str_nat (tm_year s))) = 4" "length (zfill 2 (str_nat (tm_mon s))) = 2"
    "length (zfill 2 (str_nat (tm_mday s))) = 2" "length (zfill 2 (str_nat (tm_hour s))) = 2"
    "length (zfill 2 (str_nat (tm_min s))) = 2" "length (zfill 2 (str_nat (tm_sec s))) = 2"
    using assms(1) by (simp_all add: valid_time_def length_zfill_2 length_zfill_4)
  have lt: "length (zfill 4 (str_nat (tm_year t))) = 4" "length (zfill 2 (str_nat (tm_mon t))) = 2"
    "length (zfill 2 (str_nat (tm_mday t))) = 2" "length (zfill 2 (str_nat (tm_hour t))) = 2"
    "length (zfill 2 (str_nat (tm_min t))) = 2" "length (zfill 2 (str_nat (tm_sec t))) = 2"
    using assms(2) by (simp_all add: valid_time_def length_zfill_2 length_zfill_4)
  from assms(3) have
    "zfill 4 (str_nat (tm_year s)) = zfill 4 (str_nat (tm_year t)) \<and>
     zfill 2 (str_nat (tm_mon s)) = zfill 2 (str_nat (tm_mon t)) \<and>
     zfill 2 (str_nat (tm_mday s)) = zfill 2 (str_nat (tm_mday t)) \<and>
     zfill 2 (str_nat (tm_hour s)) = zfill 2 (str_nat (tm_hour t)) \<and>
     zfill 2 (str_nat (tm_min s)) = zfill 2 (str_nat (tm_min t)) \<and>
     zfill 2 (str_nat (tm_sec s)) = zfill 2 (str_nat (tm_sec t))"
    unfolding strftime_format using ls lt by simp
  then show ?thesis
    by (auto dest!: zfill_str_nat_inj)
qed

subsection \<open>The output path\<close>

lemma endswith_iff_append: "endswith s suf \<longleftrightarrow> (\<exists>stem. s = stem @ suf)"
proof
  assume "endswith s suf"
  then have "s = take (length s - length suf) s @ suf"
    by (metis append_take_drop_id endswith_def)
  then show "\<exists>stem. s = stem @ suf" ..
next
  assume "\<exists>stem. s = stem @ suf"
  then show "endswith s suf"
    by (auto simp: endswith_def)
qed

lemma save_video_path:
  assumes "frames (node w) \<noteq> []"
  shows "map vw_path (videos (save_video now w)) =
     map vw_path (videos w) @
       [case output_filename (node w) of
          Some name \<Rightarrow>
            if name \<noteq> [] then
              (if \<not> endswith name ''.mp4'' then name @ ''.mp4'' else name)
            else ''camera_record_'' @ strftime ''%Y%m%d-%H%M%S'' now @ ''.mp4''
        | None \<Rightarrow> ''camera_record_'' @ strftime ''%Y%m%d-%H%M%S'' now @ ''.mp4'']"
  using assms
  by (cases "frames (node w)") (simp_all add: save_video_Cons Let_def del: strftime.simps)

lemma save_video_videos_not_Nil:
  "frames (node w) \<noteq> [] \<Longrightarrow> videos (save_video now w) \<noteq> []"
  by (cases "frames (node w)") (simp_all add: save_video_Cons Let_def)

lemma last_path:
  assumes "frames (node w) \<noteq> []"
  shows "vw_path (last (videos (save_video now w))) =
     last (map vw_path (videos (save_video now w)))"
  using save_video_videos_not_Nil [OF assms] by (simp add: last_map)

text \<open>
  C7, for local clock readings that differ. With no output filename configured and frames
  to write, the save routine opens its writer on \<^verbatim>\<open>camera_record_\<close>, the local time as
  year, month, day, a dash, hour, minute and second (fifteen characters for a time with a
  four-digit year), and \<^verbatim>\<open>.mp4\<close>. Two such saves whose local times differ, read to the
  second, open writers on different paths.
\<close>

theorem timestamp_filename:
  assumes "output_filename (node w) = None" and "frames (node w) \<noteq> []"
    and "valid_time now"
  shows "map vw_path (videos (save_video now w)) =
           map vw_path (videos w) @
             [''camera_record_'' @ strftime ''%Y%m%d-%H%M%S'' now @ ''.mp4''] \<and>
         strftime ''%Y%m%d-%H%M%S'' now =
           zfill 4 (str_nat (tm_year now)) @ zfill 2 (str_nat (tm_mon now)) @
           zfill 2 (str_nat (tm_mday now)) @ ''-'' @ zfill 2 (str_nat (tm_hour now)) @
           zfill 2 (str_nat (tm_min now)) @ zfill 2 (str_nat (tm_sec now)) \<and>
         length (strftime ''%Y%m%d-%H%M%S'' now) = 15 \<and>
         (\<forall>w' now'. output_filename (node w') = None \<and> frames (node w') \<noteq> [] \<and>
              valid_time now' \<and> now' \<noteq> now \<longrightarrow>
            vw_path (last (videos (save_video now' w'))) \<noteq>
            vw_path (last (videos (save_video now w))))"
proof (intro conjI allI impI)
  show "map vw_path (videos (save_video now w)) =
      map vw_path (videos w) @ [''camera_record_'' @ strftime ''%Y%m%d-%H%M%S'' now @ ''.mp4'']"
    using assms(1) save_video_path [OF assms(2), of now] by simp
  show "strftime ''%Y%m%d-%H%M%S'' now =
           zfill 4 (str_nat (tm_year now)) @ zfill 2 (str_nat (tm_mon now)) @
           zfill 2 (str_nat (tm_mday now)) @ ''-'' @ zfill 2 (str_nat (tm_hour now)) @
           zfill 2 (str_nat (tm_min now)) @ zfill 2 (str_nat (tm_sec now))"
    by (rule strftime_format)
  show "length (strftime ''%Y%m%d-%H%M%S'' now) = 15"
    unfolding strftime_format using assms(3)
    by (simp add: valid_time_def length_zfill_2 length_zfill_4)
next
  fix w' :: world and now'
  assume a: "output_filename (node w') = None \<and> frames (node w') \<noteq> [] \<and>
      valid_time now' \<and> now' \<noteq> now"
  have p: "vw_path (last (videos (save_video now w))) =
      ''camera_record_'' @ strftime ''%Y%m%d-%H%M%S'' now @ ''.mp4''"
    using assms(1) save_video_path [OF assms(2), of now]
    by (simp add: last_path [OF assms(2)] del: strftime.simps)
  have p': "vw_path (last (videos (save_video now' w'))) =
      ''camera_record_'' @ strftime ''%Y%m%d-%H%M%S'' now' @ ''.mp4''"
    using a save_video_path [of w' now']
    by (simp add: last_path del: strftime.simps)
  have "strftime ''%Y%m%d-%H%M%S'' now' \<noteq> strftime ''%Y%m%d-%H%M%S'' now"
    using a assms(3) strftime_inj [of now' now] by blast
  then show "vw_path (last (videos (save_video now' w'))) \<noteq>
      vw_path (last (videos (save_video now w)))"
    unfolding p p' by simp
qed

lemma sample_time_string:
  "strftime ''%Y%m%d-%H%M%S'' sample_time = ''20250521-130409''"
  by (simp add: sample_time_def directive_def zfill_def str_nat.simps digit_char_def)

theorem timestamp_filename_witness:
  "output_filename (node (sample_world None)) = None \<and>
   frames (node (sample_world None)) \<noteq> [] \<and> valid_time sample_time \<and>
   valid_time (sample_time\<lparr>tm_sec := 10\<rparr>) \<and> sample_time\<lparr>tm_sec := 10\<rparr> \<noteq> sample_time \<and>
   map vw_path (videos (save_video sample_time (sample_world None))) =
     [''camera_record_20250521-130409.mp4''] \<and>
   vw_path (last (videos (save_video (sample_time\<lparr>tm_sec := 10\<rparr>) (sample_world None)))) \<noteq>
   vw_path (last (videos (save_video sample_time (sample_world None))))"
proof -
  have h1: "output_filename (node (sample_world None)) = None"
    and h2: "frames (node (sample_world None)) \<noteq> []"
    and v: "videos (sample_world None) = []"
    by (simp_all add: sample_world_def ImageRecorder_fields)
  have h3: "valid_time sample_time" and h4: "valid_time (sample_time\<lparr>tm_sec := 10\<rparr>)"
    and h5: "sample_time\<lparr>tm_sec := 10\<rparr> \<noteq> sample_time"
    by (simp_all add: valid_time_def sample_time_def)
  note t = timestamp_filename [OF h1 h2 h3]
  have "map vw_path (videos (save_video sample_time (sample_world None))) =
     [''camera_record_20250521-130409.mp4'']"
    using t [THEN conjunct1] v by (simp add: sample_time_string del: strftime.simps)
  moreover have "vw_path (last (videos (save_video (sample_time\<lparr>tm_sec := 10\<rparr>)
        (sample_world None)))) \<noteq>
      vw_path (last (videos (save_video sample_time (sample_world None))))"
    using t [THEN conjunct2, THEN conjunct2, THEN conjunct2] h1 h2 h4 h5 by blast
  ultimately show ?thesis
    using h1 h2 h3 h4 h5 by blast
qed

text \<open>
  C7 as stated fails where the local clock repeats an hour. In US Eastern time the instants
  1762061400 and 1762065000 are 3600 seconds apart, one before and one after the end of
  daylight saving time, and both read 2025-11-02 01:30:00 on the local clock: the two saves
  open their writers on the same path.
\<close>

lemma sample_utcoff_readings:
  "localtime sample_utcoff 1762061400 =
     \<lparr>tm_year = 2025, tm_mon = 11, tm_mday = 2, tm_hour = 1, tm_min = 30, tm_sec = 0\<rparr>"
  "localtime sample_utcoff 1762065000 =
     \<lparr>tm_year = 2025, tm_mon = 11, tm_mday = 2, tm_hour = 1, tm_min = 30, tm_sec = 0\<rparr>"
  by code_simp+

theorem repeated_hour_counterexample:
  "output_filename (node (sample_world None)) = None \<and>
   frames (node (sample_world None)) \<noteq> [] \<and>
   (1762065000 :: int) - 1762061400 \<ge> 1 \<and>
   valid_time (localtime sample_utcoff 1762061400) \<and>
   valid_time (localtime sample_utcoff 1762065000) \<and>
   map vw_path (videos (save_video (localtime sample_utcoff 1762061400) (sample_world None))) =
     [''camera_record_20251102-013000.mp4''] \<and>
   map vw_path (videos (save_video (localtime sample_utcoff 1762065000) (sample_world None))) =
     [''camera_record_20251102-013000.mp4'']"
proof -
  have h: "frames (node (sample_world None)) \<noteq> []"
    and o: "output_filename (node (sample_world None)) = None"
    and v: "videos (sample_world None) = []"
    by (simp_all add: sample_world_def ImageRecorder_fields)
  have s: "strftime ''%Y%m%d-%H%M%S''
      \<lparr>tm_year = 2025, tm_mon = 11, tm_mday = 2, tm_hour = 1, tm_min = 30, tm_sec = 0\<rparr> =
      ''20251102-013000''"
    by (simp add: directive_def zfill_def str_nat.simps digit_char_def)
  have p1: "map vw_path (videos (save_video (localtime sample_utcoff 1762061400)
      (sample_world None))) = [''camera_record_20251102-013000.mp4'']"
    using save_video_path [OF h, of "localtime sample_utcoff 1762061400"] o v
    unfolding sample_utcoff_readings s by simp
  have p2: "map vw_path (videos (save_video (localtime sample_utcoff 1762065000)
      (sample_world None))) = [''camera_record_20251102-013000.mp4'']"
    using save_video_path [OF h, of "localtime sample_utcoff 1762065000"] o v
    unfolding sample_utcoff_readings s by simp
  have v1: "valid_time (localtime sample_utcoff 1762061400)"
    unfolding sample_utcoff_readings by (simp add: valid_time_def)
  have v2: "valid_time (localtime sample_utcoff 1762065000)"
    unfolding sample_utcoff_readings by (simp add: valid_time_def)
  have d: "(1762065000 :: int) - 1762061400 \<ge> 1"
    by simp
  show ?thesis
    by (intro conjI) (fact o h d v1 v2 p1 p2)+
qed

text \<open>
  C3, for a name that is not empty. With a configured output filename that is not the
  empty string and
  frames to write, the writer is opened on the configured name when it ends in
  \<^verbatim>\<open>.mp4\<close>, and on the name followed by \<^verbatim>\<open>.mp4\<close> otherwise.
\<close>

theorem explicit_filename_path:
  assumes "output_filename (node w) = Some name" and "name \<noteq> []"
    and "frames (node w) \<noteq> []"
  shows "map vw_path (videos (save_video now w)) =
           map vw_path (videos w) @
             [if endswith name ''.mp4'' then name else name @ ''.mp4''] \<and>
         (endswith name ''.mp4'' \<longleftrightarrow> (\<exists>stem. name = stem @ ''.mp4''))"
  using assms(1,2) save_video_path [OF assms(3), of now]
  by (simp add: endswith_iff_append)

theorem explicit_filename_path_witness:
  "output_filename (node (sample_world (Some ''clip''))) = Some ''clip'' \<and>
   output_filename (node (sample_world (Some ''a.mp4''))) = Some ''a.mp4'' \<and>
   frames (node (sample_world (Some ''clip''))) \<noteq> [] \<and>
   frames (node (sample_world (Some ''a.mp4''))) \<noteq> [] \<and>
   map vw_path (videos (save_video sample_time (sample_world (Some ''clip'')))) =
     [''clip.mp4''] \<and>
   map vw_path (videos (save_video sample_time (sample_world (Some ''a.mp4'')))) =
     [''a.mp4'']"
proof -
  have c1: "output_filename (node (sample_world (Some ''clip''))) = Some ''clip''"
    and c2: "''clip'' \<noteq> []"
    and c3: "frames (node (sample_world (Some ''clip''))) \<noteq> []"
    and c4: "videos (sample_world (Some ''clip'')) = []"
    by (simp_all add: sample_world_def ImageRecorder_fields)
  have a1: "output_filename (node (sample_world (Some ''a.mp4''))) = Some ''a.mp4''"
    and a2: "''a.mp4'' \<noteq> []"
    and a3: "frames (node (sample_world (Some ''a.mp4''))) \<noteq> []"
    and a4: "videos (sample_world (Some ''a.mp4'')) = []"
    by (simp_all add: sample_world_def ImageRecorder_fields)
  show ?thesis
    using c1 c3 a1 a3 c4 a4
      explicit_filename_path [OF c1 c2 c3, of sample_time, THEN conjunct1]
      explicit_filename_path [OF a1 a2 a3, of sample_time, THEN conjunct1]
    by (simp add: endswith_def)
qed

text \<open>
  C3 as stated fails for the empty string: \<^verbatim>\<open>-o ""\<close> configures a name that does not end
  in \<^verbatim>\<open>.mp4\<close>, yet the path is the timestamp name and not \<^verbatim>\<open>.mp4\<close>, because
  \<^verbatim>\<open>if self.output_filename:\<close> treats the empty string like \<^verbatim>\<open>None\<close>.
\<close>

theorem empty_filename_counterexample:
  "output_filename (node (sample_world (Some ''''))) = Some '''' \<and>
   frames (node (sample_world (Some ''''))) \<noteq> [] \<and>
   \<not> endswith '''' ''.mp4'' \<and>
   map vw_path (videos (save_video sample_time (sample_world (Some '''')))) =
     [''camera_record_20250521-130409.mp4''] \<and>
   map vw_path (videos (save_video sample_time (sample_world (Some '''')))) \<noteq>
     ['''' @ ''.mp4'']"
proof -
  have h: "frames (node (sample_world (Some ''''))) \<noteq> []"
    and o: "output_filename (node (sample_world (Some ''''))) = Some ''''"
    and v: "videos (sample_world (Some '''')) = []"
    by (simp_all add: sample_world_def ImageRecorder_fields)
  have "map vw_path (videos (save_video sample_time (sample_world (Some '''')))) =
     [''camera_record_20250521-130409.mp4'']"
    using save_video_path [OF h, of sample_time] o v
    by (simp add: sample_time_string del: strftime.simps)
  then show ?thesis
    using h o by (simp add: endswith_def)
qed

subsection \<open>The frame rate\<close>







end
